theory Spec2Isabelle
  imports Main "HOL-Library.AList" "HOL-Library.Word"
begin

section \<open>JavaScript values\<close>

text \<open>
  The tracker (the second program of \<^verbatim>\<open>src/examples/udp/consumer.js\<close>, from its
  \<^verbatim>\<open>#!/usr/bin/env node\<close> line on) handles values decoded by \<^verbatim>\<open>JSON.parse\<close>.
  A number is an IEEE-754 double, kept as its 64 bits: the tracker never computes with one.
  An object is the list of its own properties in insertion order; an array has its elements
  and, besides, the named properties that were assigned to it (none after decoding).
  \<^verbatim>\<open>undefined\<close> is not a JSON value: a value that may be undefined is a \<open>jsval option\<close>.

  Two limits of the model. A property name is taken as the name of an own property: this
  is so for every name a client can report but \<^verbatim>\<open>__proto__\<close>. The code's assignment
  \<^verbatim>\<open>services['__proto__'] = v\<close> stores no entry: it replaces the prototype of
  \<^verbatim>\<open>services\<close> (and, with timeouts on, that of \<^verbatim>\<open>timeoutTimerIds\<close> by a timer object of
  the runtime). The model does not follow the code there: a merge that meets this name
  stops with \<open>Unmodelled\<close>, which is no exception of the code, so that every statement
  about a merge that returns is about reports without the name. And \<^verbatim>\<open>Object.keys\<close>
  lists the names that look like array indices first, where the lists here keep the order
  of the text; the order decides only which handle a timeout gets, and nothing below depends
  on it.
\<close>

datatype jsval =
    JNull
  | JBool bool
  | JNum "64 word"
  | JStr string
  | JArr "jsval list" "(string \<times> jsval) list"
  | JObj "(string \<times> jsval) list"

datatype js_error = TypeError | Unmodelled

fun typeof :: "jsval option \<Rightarrow> string" where
  "typeof None = ''undefined''"
| "typeof (Some JNull) = ''object''"
| "typeof (Some (JBool b)) = ''boolean''"
| "typeof (Some (JNum n)) = ''number''"
| "typeof (Some (JStr s)) = ''string''"
| "typeof (Some (JArr es xs)) = ''object''"
| "typeof (Some (JObj kvs)) = ''object''"

text \<open>\<^verbatim>\<open>String(i)\<close> for an array index: its decimal digits.\<close>

definition digit_char :: "nat \<Rightarrow> char" where
  "digit_char d = ''0123456789'' ! d"

fun string_of_nat :: "nat \<Rightarrow> string" where
  "string_of_nat n =
     (if n < 10 then [digit_char n] else string_of_nat (n div 10) @ [digit_char (n mod 10)])"

declare string_of_nat.simps [simp del]

text \<open>
  The own enumerable properties of a value: an array's indices come first, as the decimal
  strings \<^verbatim>\<open>"0"\<close>, \<^verbatim>\<open>"1"\<close>, ...
\<close>

fun props :: "jsval \<Rightarrow> (string \<times> jsval) list" where
  "props (JObj kvs) = kvs"
| "props (JArr es xs) = zip (map string_of_nat [0..<length es]) es @ xs"
| "props v = []"

text \<open>
  \<^verbatim>\<open>v[k]\<close>: reading a property of \<^verbatim>\<open>null\<close> throws; a property that is absent reads as
  undefined. Inherited properties are left out: the tracker reads \<^verbatim>\<open>services\<close> and the
  names \<^verbatim>\<open>Object.keys\<close> gave it.
\<close>

fun get_member :: "jsval \<Rightarrow> string \<Rightarrow> js_error + jsval option" where
  "get_member JNull k = Inl TypeError"
| "get_member v k = Inr (map_of (props v) k)"

text \<open>
  \<^verbatim>\<open>Object.keys(v)\<close>, called by the tracker on values whose \<^verbatim>\<open>typeof\<close> is
  \<^verbatim>\<open>'object'\<close> only: it throws on \<^verbatim>\<open>null\<close>.
\<close>

fun Object_keys :: "jsval \<Rightarrow> js_error + string list" where
  "Object_keys (JObj kvs) = Inr (map fst kvs)"
| "Object_keys (JArr es xs) = Inr (map fst (props (JArr es xs)))"
| "Object_keys v = Inl TypeError"

text \<open>
  \<^verbatim>\<open>v.k = x\<close> for a name \<open>k\<close> that is not an array index (the tracker assigns \<^verbatim>\<open>rinfo\<close>
  and \<^verbatim>\<open>available\<close>): it throws on \<^verbatim>\<open>undefined\<close> and \<^verbatim>\<open>null\<close>, and outside strict
  mode the assignment to a boolean, number or string is dropped. The result is the value
  the variable holds afterwards.
\<close>

fun set_member :: "jsval option \<Rightarrow> string \<Rightarrow> jsval \<Rightarrow> js_error + jsval" where
  "set_member None k x = Inl TypeError"
| "set_member (Some JNull) k x = Inl TypeError"
| "set_member (Some (JObj kvs)) k x = Inr (JObj (AList.update k x kvs))"
| "set_member (Some (JArr es xs)) k x = Inr (JArr es (AList.update k x xs))"
| "set_member (Some v) k x = Inr v"

text \<open>\<^verbatim>\<open>String.prototype.toUpperCase\<close> on the ASCII letters of a request method.\<close>

definition toUpperCase :: "string \<Rightarrow> string" where
  "toUpperCase s =
     map (\<lambda>c. case map_of (zip ''abcdefghijklmnopqrstuvwxyz'' ''ABCDEFGHIJKLMNOPQRSTUVWXYZ'') c of
                 None \<Rightarrow> c | Some u \<Rightarrow> u) s"

section \<open>The state of the tracker\<close>

text \<open>
  \<^verbatim>\<open>services\<close> and \<^verbatim>\<open>timeoutTimerIds\<close> are the two module variables. A timer handle
  is an object of the runtime, so it is truthy; the model names it by the number of the
  \<^verbatim>\<open>setTimeout\<close> call that made it. \<open>None\<close> in \<^verbatim>\<open>timeoutTimerIds\<close> is \<^verbatim>\<open>null\<close>. The runtime's side is the list of the timeouts that
  are pending, each with the name its callback closes over, and the clock in milliseconds.
\<close>

record timer =
  tid :: nat
  due :: nat
  tname :: string

record tracker =
  services :: "(string \<times> jsval) list"
  timeoutTimerIds :: "(string \<times> nat option) list"
  timers :: "timer list"
  clock :: nat
  next_timer :: nat

definition initial :: tracker where
  "initial = \<lparr>services = [], timeoutTimerIds = [], timers = [], clock = 0, next_timer = 0\<rparr>"

text \<open>The options \<^verbatim>\<open>rc\<close> the tracker reads after start-up; \<open>0\<close> is falsy.\<close>

record options =
  port :: nat
  hostname :: string
  timeout :: nat
  retryBind :: nat

text \<open>The two built-ins of the runtime the handler calls; \<open>None\<close> is a thrown SyntaxError.\<close>

record runtime =
  JSON_parse :: "string \<Rightarrow> jsval option"
  JSON_stringify :: "jsval \<Rightarrow> string"

definition clearTimeout :: "nat \<Rightarrow> tracker \<Rightarrow> tracker" where
  "clearTimeout h st = st\<lparr>timers := filter (\<lambda>t. tid t \<noteq> h) (timers st)\<rparr>"

definition setTimeout :: "string \<Rightarrow> nat \<Rightarrow> tracker \<Rightarrow> nat \<times> tracker" where
  "setTimeout name delay st =
     (next_timer st,
      st\<lparr>timers := timers st @ [\<lparr>tid = next_timer st, due = clock st + delay, tname = name\<rparr>],
         next_timer := Suc (next_timer st)\<rparr>)"

section \<open>Requests and responses\<close>

datatype stream_end = End | Error string

record request =
  req_url :: string
  req_method :: string
  chunks :: "string list"
  ending :: stream_end
  client_address :: jsval

record response =
  statusCode :: nat
  headers :: "(string \<times> string) list"
  body :: string
  finished :: bool

definition fresh_response :: response where
  "fresh_response = \<lparr>statusCode = 200, headers = [], body = [], finished = False\<rparr>"

text \<open>The entries of \<^verbatim>\<open>http.STATUS_CODES\<close> for the codes the tracker sends.\<close>

definition STATUS_CODES :: "nat \<Rightarrow> string option" where
  "STATUS_CODES c =
     (if c = 400 then Some ''Bad Request'' else if c = 404 then Some ''Not Found'' else None)"

definition res_end :: "string option \<Rightarrow> response \<Rightarrow> response" where
  "res_end data res =
     res\<lparr>body := body res @ (case data of None \<Rightarrow> [] | Some d \<Rightarrow> d), finished := True\<rparr>"

text \<open>
  \<^verbatim>\<open>bufferRequest\<close>: the arguments \<^verbatim>\<open>(err, data)\<close> its callback gets. On \<^verbatim>\<open>'end'\<close> they are
  \<^verbatim>\<open>null\<close> and the concatenated chunks; on \<^verbatim>\<open>'error'\<close> the error alone, \<^verbatim>\<open>data\<close> undefined.
\<close>

definition bufferRequest :: "request \<Rightarrow> string option \<times> string option" where
  "bufferRequest req =
     (case ending req of
        End \<Rightarrow> (None, Some (foldl (\<lambda>buffer chunk. buffer @ chunk) [] (chunks req)))
      | Error e \<Rightarrow> (Some e, None))"

text \<open>
  The path of a request URL as the specification speaks of it: the URL up to its query
  string. The handler does not compute it; it compares the whole of \<^verbatim>\<open>req.url\<close>.
\<close>

definition url_path :: "string \<Rightarrow> string" where
  "url_path u = takeWhile (\<lambda>c. c \<noteq> CHR ''?'') u"

definition sendError :: "nat \<Rightarrow> string option \<Rightarrow> response \<Rightarrow> response" where
  "sendError c message res =
     (let message' = (case message of None \<Rightarrow> STATUS_CODES c
                      | Some m \<Rightarrow> if m = [] then STATUS_CODES c else Some m)
      in res_end message' (res\<lparr>statusCode := c\<rparr>))"

section \<open>Merging reports\<close>

fun forEach :: "('a \<Rightarrow> 's \<Rightarrow> js_error + 's) \<Rightarrow> 'a list \<Rightarrow> 's \<Rightarrow> js_error + 's" where
  "forEach f [] s = Inr s"
| "forEach f (x # xs) s = (case f x s of Inl e \<Rightarrow> Inl e | Inr s' \<Rightarrow> forEach f xs s')"

text \<open>
  The body of the \<^verbatim>\<open>forEach\<close> in \<^verbatim>\<open>updateServices\<close>, for one name. The first line is
  not of the code: it is where the model stops at the name \<^verbatim>\<open>__proto__\<close>.
\<close>

definition update_service :: "options \<Rightarrow> jsval \<Rightarrow> jsval \<Rightarrow> string \<Rightarrow> tracker \<Rightarrow> js_error + tracker" where
  "update_service rc svcs rinfo name st =
     (if name = ''__proto__'' then Inl Unmodelled
      else
        (case get_member svcs name of
           Inl e \<Rightarrow> Inl e
         | Inr v \<Rightarrow>
             (case set_member v ''rinfo'' rinfo of
                Inl e \<Rightarrow> Inl e
              | Inr v' \<Rightarrow>
                  let st1 = st\<lparr>services := AList.update name v' (services st)\<rparr> in
                  if timeout rc = 0 then Inr st1
                  else
                    let st2 = (case map_of (timeoutTimerIds st1) name of
                                 Some (Some h) \<Rightarrow> clearTimeout h st1
                               | _ \<Rightarrow> st1);
                        (h', st3) = setTimeout name (timeout rc) st2
                    in Inr (st3\<lparr>timeoutTimerIds :=
                                  AList.update name (Some h') (timeoutTimerIds st3)\<rparr>))))"

definition updateServices :: "options \<Rightarrow> jsval \<Rightarrow> jsval \<Rightarrow> tracker \<Rightarrow> js_error + tracker" where
  "updateServices rc data rinfo st =
     (case get_member data ''services'' of
        Inl e \<Rightarrow> Inl e
      | Inr None \<Rightarrow> Inl TypeError
      | Inr (Some svcs) \<Rightarrow>
          (case Object_keys svcs of
             Inl e \<Rightarrow> Inl e
           | Inr names \<Rightarrow> forEach (update_service rc svcs rinfo) names st))"

text \<open>The callback \<^verbatim>\<open>updateServices\<close> hands to \<^verbatim>\<open>setTimeout\<close> for \<open>name\<close>.\<close>

definition timeout_callback :: "string \<Rightarrow> tracker \<Rightarrow> js_error + tracker" where
  "timeout_callback name st =
     (let st1 = st\<lparr>timeoutTimerIds := AList.update name None (timeoutTimerIds st)\<rparr> in
      case set_member (map_of (services st1) name) ''available'' (JBool False) of
        Inl e \<Rightarrow> Inl e
      | Inr v \<Rightarrow> Inr (st1\<lparr>services := AList.update name v (services st1)\<rparr>))"

section \<open>The request handler\<close>

text \<open>
  \<^verbatim>\<open>handleRequest\<close>, run when the request's stream has ended. \<open>Inl TypeError\<close> is an
  exception that leaves the callback uncaught (\<open>Inl Unmodelled\<close>: the merge met the name
  \<^verbatim>\<open>__proto__\<close>); otherwise the result is the new state and the response written.
  \<^verbatim>\<open>JSON.parse(undefined)\<close> parses the text \<^verbatim>\<open>undefined\<close>, which is no JSON: it throws.
\<close>

definition JSON_parse_arg :: "runtime \<Rightarrow> string option \<Rightarrow> jsval option" where
  "JSON_parse_arg rt data = (case data of None \<Rightarrow> None | Some s \<Rightarrow> JSON_parse rt s)"

definition handleRequest ::
    "runtime \<Rightarrow> options \<Rightarrow> request \<Rightarrow> response \<Rightarrow> tracker \<Rightarrow> js_error + (tracker \<times> response)" where
  "handleRequest rt rc req res st =
     (let (err, data) = bufferRequest req in
      if req_url req \<noteq> ''/'' \<or> toUpperCase (req_method req) \<noteq> ''POST''
      then Inr (st, sendError 404 None res)
      else
        (case JSON_parse_arg rt data of
           None \<Rightarrow> Inr (st, sendError 400 None res)
         | Some d \<Rightarrow>
             (case get_member d ''services'' of
                Inl e \<Rightarrow> Inl e
              | Inr sv \<Rightarrow>
                  (case (if typeof sv = ''object''
                         then updateServices rc d (client_address req) st
                         else Inr st) of
                     Inl e \<Rightarrow> Inl e
                   | Inr st' \<Rightarrow>
                       Inr (st', res_end (Some (JSON_stringify rt (JObj (services st'))))
                                   (res\<lparr>statusCode := 200\<rparr>))))))"

text \<open>
  The names a request reports: the names the handler hands to the merge, none when the
  request stops before it.
\<close>

definition reported_names :: "runtime \<Rightarrow> request \<Rightarrow> string list" where
  "reported_names rt req =
     (if req_url req \<noteq> ''/'' \<or> toUpperCase (req_method req) \<noteq> ''POST'' then []
      else
        (case JSON_parse_arg rt (snd (bufferRequest req)) of
           None \<Rightarrow> []
         | Some d \<Rightarrow>
             (case get_member d ''services'' of
                Inl e \<Rightarrow> []
              | Inr sv \<Rightarrow>
                  if typeof sv = ''object''
                  then (case sv of
                          None \<Rightarrow> []
                        | Some svcs \<Rightarrow> (case Object_keys svcs of Inl e \<Rightarrow> [] | Inr names \<Rightarrow> names))
                  else [])))"

section \<open>The event loop\<close>

text \<open>
  What the runtime can do to the tracker: deliver a request whose stream has ended, let time
  pass, or run the callback of a pending timeout that is due (the timeout is then no longer
  pending). Asking for a timeout that is not pending or not yet due does nothing: the
  runtime runs a callback at or after its time, never before, and once.
\<close>

datatype event = Request request | Elapse nat | Fire nat

definition fire :: "nat \<Rightarrow> tracker \<Rightarrow> js_error + tracker" where
  "fire h st =
     (case find (\<lambda>t. tid t = h) (timers st) of
        None \<Rightarrow> Inr st
      | Some t \<Rightarrow>
          if due t \<le> clock st
          then timeout_callback (tname t) (st\<lparr>timers := filter (\<lambda>t. tid t \<noteq> h) (timers st)\<rparr>)
          else Inr st)"

fun apply_event :: "runtime \<Rightarrow> options \<Rightarrow> event \<Rightarrow> tracker \<Rightarrow> js_error + tracker" where
  "apply_event rt rc (Request req) st =
     (case handleRequest rt rc req fresh_response st of
        Inl e \<Rightarrow> Inl e
      | Inr (st', res) \<Rightarrow> Inr st')"
| "apply_event rt rc (Elapse d) st = Inr (st\<lparr>clock := clock st + d\<rparr>)"
| "apply_event rt rc (Fire h) st = fire h st"

definition run :: "runtime \<Rightarrow> options \<Rightarrow> event list \<Rightarrow> tracker \<Rightarrow> js_error + tracker" where
  "run rt rc evs st = forEach (apply_event rt rc) evs st"


section \<open>Binding the listener\<close>

text \<open>
  The server starts with \<^verbatim>\<open>listen(rc.port, rc.hostname)\<close>. Its \<^verbatim>\<open>'error'\<close> handler either
  sets a timeout of \<^verbatim>\<open>rc.retryBind\<close> milliseconds that calls \<^verbatim>\<open>listen(rc.port)\<close>, with
  no host name, or prints the error. \<open>listen_loop\<close> feeds the handler the outcomes of the
  successive \<^verbatim>\<open>listen\<close> calls (\<open>None\<close>: the server is listening) and keeps the calls made;
  \<open>Waiting\<close> is the state in which the outcome of the last call is not known.
\<close>

record bind_error =
  err_code :: string
  err_message :: string

record listen_call =
  listen_port :: nat
  listen_host :: "string option"

definition first_listen :: "options \<Rightarrow> listen_call" where
  "first_listen rc = \<lparr>listen_port = port rc, listen_host = Some (hostname rc)\<rparr>"

datatype bind_action = Retry nat listen_call | Report string

definition on_error :: "options \<Rightarrow> bind_error \<Rightarrow> bind_action" where
  "on_error rc err =
     (if err_code err = ''EADDRINUSE'' \<or> retryBind rc \<noteq> 0
      then Retry (retryBind rc) \<lparr>listen_port = port rc, listen_host = None\<rparr>
      else Report (''Error: '' @ err_message err))"

datatype listen_state =
    Listening "listen_call list"
  | Waiting "listen_call list"
  | NotListening "listen_call list" string

fun listen_loop :: "options \<Rightarrow> bind_error option list \<Rightarrow> listen_call list \<Rightarrow> listen_state" where
  "listen_loop rc [] calls = Waiting calls"
| "listen_loop rc (None # outcomes) calls = Listening calls"
| "listen_loop rc (Some err # outcomes) calls =
     (case on_error rc err of
        Retry delay call \<Rightarrow> listen_loop rc outcomes (calls @ [call])
      | Report line \<Rightarrow> NotListening calls line)"

definition start_listening :: "options \<Rightarrow> bind_error option list \<Rightarrow> listen_state" where
  "start_listening rc outcomes = listen_loop rc outcomes [first_listen rc]"

section \<open>Concrete requests\<close>

text \<open>
  A runtime fixture for concrete runs: it decodes the texts the examples post as
  \<^verbatim>\<open>JSON.parse\<close> does, rejects the other texts used below, and serialises the values of
  its table to their texts.
\<close>

definition sample_texts :: "(string \<times> jsval) list" where
  \<open>sample_texts =
     [(''null'', JNull),
      (''{}'', JObj []),
      (''{"services":null}'', JObj [(''services'', JNull)]),
      (''{"services":{"a":{}}}'', JObj [(''services'', JObj [(''a'', JObj [])])]),
      (''{"services":{"b":{}}}'', JObj [(''services'', JObj [(''b'', JObj [])])]),
      (''{"services":{"a":{"available":true}}}'',
         JObj [(''services'', JObj [(''a'', JObj [(''available'', JBool True)])])]),
      (''{"services":[{},{}]}'', JObj [(''services'', JArr [JObj [], JObj []] [])]),
      (''{"services":{"a":"x"}}'', JObj [(''services'', JObj [(''a'', JStr ''x'')])]),
      (''{"services":[{},null,{}]}'',
         JObj [(''services'', JArr [JObj [], JNull, JObj []] [])])]\<close>

definition sample_runtime :: runtime where
  "sample_runtime =
     \<lparr>JSON_parse = map_of sample_texts,
      JSON_stringify = (\<lambda>v. case find (\<lambda>p. snd p = v) sample_texts of
                                None \<Rightarrow> [] | Some p \<Rightarrow> fst p)\<rparr>"

text \<open>The address of a client, as \<^verbatim>\<open>req.client.address()\<close> gives it (the port is 4000).\<close>

definition address_A :: jsval where
  "address_A =
     JObj [(''address'', JStr ''10.0.0.1''), (''family'', JStr ''IPv4''),
           (''port'', JNum 0x40AF400000000000)]"

definition post :: "string \<Rightarrow> request" where
  "post text =
     \<lparr>req_url = ''/'', req_method = ''POST'', chunks = [text], ending = End,
      client_address = address_A\<rparr>"

definition no_expiry :: options where
  "no_expiry = \<lparr>port = 8080, hostname = ''0.0.0.0'', timeout = 0, retryBind = 0\<rparr>"

definition expiry_10 :: options where
  "expiry_10 = \<lparr>port = 8080, hostname = ''0.0.0.0'', timeout = 10, retryBind = 0\<rparr>"

section \<open>Invariants of the timer table\<close>




section \<open>Lemmas\<close>

lemmas fixture_defs = sample_runtime_def sample_texts_def post_def address_A_def no_expiry_def
  expiry_10_def fresh_response_def initial_def

lemmas handler_defs = handleRequest_def bufferRequest_def JSON_parse_arg_def toUpperCase_def
  sendError_def res_end_def STATUS_CODES_def updateServices_def update_service_def

subsection \<open>Index strings\<close>









subsection \<open>Property access\<close>

lemma get_member_props: "v \<noteq> JNull \<Longrightarrow> get_member v k = Inr (map_of (props v) k)"
  by (cases v) simp_all

lemma set_member_total: "v \<noteq> JNull \<Longrightarrow> \<exists>v'. set_member (Some v) k x = Inr v'"
  by (cases v) simp_all

lemma set_member_Inr_not_null: "set_member v k x = Inr v' \<Longrightarrow> v' \<noteq> JNull \<and> v \<noteq> None \<and> v \<noteq> Some JNull"
  by (cases "(v, k, x)" rule: set_member.cases) auto

subsection \<open>One name of a merge\<close>

lemma update_service_proto: "update_service rc svcs rinfo ''__proto__'' st = Inl Unmodelled"
  by (simp add: update_service_def)

lemma update_service_eq:
  assumes "name \<noteq> ''__proto__''"
  shows "update_service rc svcs rinfo name st =
     (case get_member svcs name of
        Inl e \<Rightarrow> Inl e
      | Inr v \<Rightarrow>
          (case set_member v ''rinfo'' rinfo of
             Inl e \<Rightarrow> Inl e
           | Inr v' \<Rightarrow>
               Inr (if timeout rc = 0 then st\<lparr>services := AList.update name v' (services st)\<rparr>
                    else st\<lparr>services := AList.update name v' (services st),
                            timers := filter (\<lambda>t. Some (Some (tid t)) \<noteq> map_of (timeoutTimerIds st) name)
                                        (timers st)
                                      @ [\<lparr>tid = next_timer st, due = clock st + timeout rc, tname = name\<rparr>],
                            next_timer := Suc (next_timer st),
                            timeoutTimerIds :=
                              AList.update name (Some (next_timer st)) (timeoutTimerIds st)\<rparr>)))"
proof (cases "map_of (timeoutTimerIds st) name")
  case None
  then show ?thesis using assms
    by (simp add: update_service_def setTimeout_def clearTimeout_def Let_def split: sum.splits)
next
  case (Some handle)
  then show ?thesis using assms
    by (cases handle)
       (simp_all add: update_service_def setTimeout_def clearTimeout_def Let_def split: sum.splits)
qed

lemma update_service_Inr:
  assumes "update_service rc svcs rinfo name st = Inr st1"
  obtains v v' where "get_member svcs name = Inr v" and "set_member v ''rinfo'' rinfo = Inr v'"
    and "v' \<noteq> JNull"
    and "st1 = (if timeout rc = 0 then st\<lparr>services := AList.update name v' (services st)\<rparr>
                else st\<lparr>services := AList.update name v' (services st),
                        timers := filter (\<lambda>t. Some (Some (tid t)) \<noteq> map_of (timeoutTimerIds st) name)
                                    (timers st)
                                  @ [\<lparr>tid = next_timer st, due = clock st + timeout rc, tname = name\<rparr>],
                        next_timer := Suc (next_timer st),
                        timeoutTimerIds :=
                          AList.update name (Some (next_timer st)) (timeoutTimerIds st)\<rparr>)"
proof -
  have p: "name \<noteq> ''__proto__''" using assms by (auto simp: update_service_proto)
  note eq = update_service_eq [OF p]
  obtain v where g: "get_member svcs name = Inr v"
    using assms by (cases "get_member svcs name") (simp_all add: eq)
  obtain v' where s: "set_member v ''rinfo'' rinfo = Inr v'"
    using assms g by (cases "set_member v ''rinfo'' rinfo") (simp_all add: eq)
  have n: "v' \<noteq> JNull" using s set_member_Inr_not_null by blast
  show thesis
    using assms by (intro that [OF g s n]) (simp add: eq g s)
qed

lemma update_service_not_proto:
  "update_service rc svcs rinfo name st = Inr st1 \<Longrightarrow> name \<noteq> ''__proto__''"
  by (auto simp: update_service_proto)

lemma update_service_fields:
  assumes "update_service rc svcs rinfo name st = Inr st1"
  obtains v' where "v' \<noteq> JNull"
    and "services st1 = AList.update name v' (services st)"
    and "clock st1 = clock st"
    and "timeout rc = 0 \<Longrightarrow> timers st1 = timers st"
    and "timeout rc = 0 \<Longrightarrow> timeoutTimerIds st1 = timeoutTimerIds st"
    and "timeout rc = 0 \<Longrightarrow> next_timer st1 = next_timer st"
    and "timeout rc \<noteq> 0 \<Longrightarrow> timers st1 =
           filter (\<lambda>t. Some (Some (tid t)) \<noteq> map_of (timeoutTimerIds st) name) (timers st)
           @ [\<lparr>tid = next_timer st, due = clock st + timeout rc, tname = name\<rparr>]"
    and "timeout rc \<noteq> 0 \<Longrightarrow> timeoutTimerIds st1 =
           AList.update name (Some (next_timer st)) (timeoutTimerIds st)"
    and "timeout rc \<noteq> 0 \<Longrightarrow> next_timer st1 = Suc (next_timer st)"
proof -
  from assms obtain v v' where n: "v' \<noteq> JNull" and
    st1: "st1 = (if timeout rc = 0 then st\<lparr>services := AList.update name v' (services st)\<rparr>
                else st\<lparr>services := AList.update name v' (services st),
                        timers := filter (\<lambda>t. Some (Some (tid t)) \<noteq> map_of (timeoutTimerIds st) name)
                                    (timers st)
                                  @ [\<lparr>tid = next_timer st, due = clock st + timeout rc, tname = name\<rparr>],
                        next_timer := Suc (next_timer st),
                        timeoutTimerIds :=
                          AList.update name (Some (next_timer st)) (timeoutTimerIds st)\<rparr>)"
    by (rule update_service_Inr)
  show thesis
    by (rule that [of v']) (simp_all add: n st1)
qed

lemma update_service_services:
  assumes "update_service rc svcs rinfo name st = Inr st1"
  shows "\<exists>v v'. get_member svcs name = Inr v \<and> set_member v ''rinfo'' rinfo = Inr v'
     \<and> services st1 = AList.update name v' (services st)"
proof -
  from assms obtain v v' where "get_member svcs name = Inr v"
    and "set_member v ''rinfo'' rinfo = Inr v'"
    and "st1 = (if timeout rc = 0 then st\<lparr>services := AList.update name v' (services st)\<rparr>
                else st\<lparr>services := AList.update name v' (services st),
                        timers := filter (\<lambda>t. Some (Some (tid t)) \<noteq> map_of (timeoutTimerIds st) name)
                                    (timers st)
                                  @ [\<lparr>tid = next_timer st, due = clock st + timeout rc, tname = name\<rparr>],
                        next_timer := Suc (next_timer st),
                        timeoutTimerIds :=
                          AList.update name (Some (next_timer st)) (timeoutTimerIds st)\<rparr>)"
    by (rule update_service_Inr)
  then show ?thesis by (cases "timeout rc = 0") auto
qed

lemma update_service_total:
  "name \<noteq> ''__proto__'' \<Longrightarrow> get_member svcs name = Inr v \<Longrightarrow>
   set_member v ''rinfo'' rinfo = Inr v' \<Longrightarrow>
   \<exists>st1. update_service rc svcs rinfo name st = Inr st1"
  by (simp add: update_service_eq)

lemma forEach_update_service_frame:
  "forEach (update_service rc svcs rinfo) names st = Inr st' \<Longrightarrow> name \<notin> set names \<Longrightarrow>
   map_of (services st') name = map_of (services st) name"
proof (induction names arbitrary: st)
  case Nil
  then show ?case by simp
next
  case (Cons n names)
  from Cons.prems obtain st1 where one: "update_service rc svcs rinfo n st = Inr st1"
    and rest: "forEach (update_service rc svcs rinfo) names st1 = Inr st'"
    by (auto split: sum.splits)
  from Cons.prems have "name \<noteq> n" "name \<notin> set names" by auto
  with Cons.IH [OF rest] update_service_services [OF one] show ?case
    by (auto simp: update_conv')
qed

lemma forEach_update_service_entries:
  assumes "svcs \<noteq> JNull"
    and "\<forall>name \<in> set names.
           name \<noteq> ''__proto__'' \<and> (\<exists>v. map_of (props svcs) name = Some v \<and> v \<noteq> JNull)"
  shows "\<exists>st'. forEach (update_service rc svcs rinfo) names st = Inr st' \<and>
           (\<forall>name \<in> set names. \<exists>v'.
               set_member (map_of (props svcs) name) ''rinfo'' rinfo = Inr v'
               \<and> map_of (services st') name = Some v')"
  using assms(2)
proof (induction names arbitrary: st)
  case Nil
  then show ?case by simp
next
  case (Cons n names)
  from Cons.prems obtain v where np: "n \<noteq> ''__proto__''"
    and v: "map_of (props svcs) n = Some v" "v \<noteq> JNull" by auto
  then obtain v' where v': "set_member (Some v) ''rinfo'' rinfo = Inr v'"
    using set_member_total by blast
  have g: "get_member svcs n = Inr (Some v)" using assms(1) v by (simp add: get_member_props)
  from update_service_total [OF np g v'] obtain st1
    where one: "update_service rc svcs rinfo n st = Inr st1" by blast
  from update_service_services [OF one] g v'
  have s1: "services st1 = AList.update n v' (services st)" by auto
  from Cons.prems have "\<forall>name \<in> set names.
      name \<noteq> ''__proto__'' \<and> (\<exists>v. map_of (props svcs) name = Some v \<and> v \<noteq> JNull)"
    by simp
  from Cons.IH [OF this, of st1] obtain st' where
    rest: "forEach (update_service rc svcs rinfo) names st1 = Inr st'"
    and ents: "\<forall>name \<in> set names. \<exists>v'.
               set_member (map_of (props svcs) name) ''rinfo'' rinfo = Inr v'
               \<and> map_of (services st') name = Some v'"
    by blast
  have "map_of (services st') n = Some v'" if "n \<notin> set names"
    using forEach_update_service_frame [OF rest that] s1 by (simp add: update_conv')
  then have here: "\<exists>w. set_member (map_of (props svcs) n) ''rinfo'' rinfo = Inr w
               \<and> map_of (services st') n = Some w"
    using ents v v' by (cases "n \<in> set names") auto
  show ?case using one rest ents here by auto
qed

subsection \<open>A request that decodes\<close>

lemma handleRequest_decoded:
  assumes "req_url req = ''/''" and "toUpperCase (req_method req) = ''POST''"
    and "JSON_parse_arg rt (snd (bufferRequest req)) = Some d"
  shows "handleRequest rt rc req res st =
     (case get_member d ''services'' of
        Inl e \<Rightarrow> Inl e
      | Inr sv \<Rightarrow>
          (case (if typeof sv = ''object''
                 then updateServices rc d (client_address req) st
                 else Inr st) of
             Inl e \<Rightarrow> Inl e
           | Inr st' \<Rightarrow>
               Inr (st', res_end (Some (JSON_stringify rt (JObj (services st'))))
                           (res\<lparr>statusCode := 200\<rparr>))))"
  using assms by (cases "bufferRequest req") (simp add: handleRequest_def)

section \<open>Routing and decoding errors\<close>

lemma foldl_append_concat: "foldl (\<lambda>buffer chunk. buffer @ chunk) acc xs = acc @ concat xs"
  by (induction xs arbitrary: acc) simp_all

lemma bufferRequest_End:
  "ending req = End \<Longrightarrow> bufferRequest req = (None, Some (concat (chunks req)))"
  by (simp add: bufferRequest_def foldl_append_concat)

text \<open>
  Claim C6 as stated fails: a POST whose URL is \<^verbatim>\<open>/?x=1\<close> has the method POST and the
  path \<^verbatim>\<open>/\<close>, and is answered 404. The handler compares the whole URL, query string
  included, with \<^verbatim>\<open>/\<close>.
\<close>

theorem query_string_404_counterexample:
  "handleRequest sample_runtime no_expiry ((post ''{}'')\<lparr>req_url := ''/?x=1''\<rparr>)
      fresh_response initial
     = Inr (initial, \<lparr>statusCode = 404, headers = [], body = ''Not Found'', finished = True\<rparr>)
   \<and> toUpperCase (req_method ((post ''{}'')\<lparr>req_url := ''/?x=1''\<rparr>)) = ''POST''
   \<and> url_path (req_url ((post ''{}'')\<lparr>req_url := ''/?x=1''\<rparr>)) = ''/''"
  by (simp add: fixture_defs handler_defs url_path_def)

text \<open>
  Claim C6, amended: the handler answers 404 exactly when the method, in upper case, is not
  POST or the request's URL as a whole is not \<^verbatim>\<open>/\<close>. For a request whose body was received
  to its end, it answers 400 exactly when the request is a POST to \<^verbatim>\<open>/\<close> and
  \<^verbatim>\<open>JSON.parse\<close> rejects the body, which is the chunks received, in their order. Whenever
  it answers 400 or 404, the state of the tracker is the one it started from and the
  response is what \<^verbatim>\<open>sendError\<close> writes.
\<close>

theorem handleRequest_404_400:
  "((\<exists>st' res'. handleRequest rt rc req res st = Inr (st', res') \<and> statusCode res' = 404)
      \<longleftrightarrow> (toUpperCase (req_method req) \<noteq> ''POST'' \<or> req_url req \<noteq> ''/''))
   \<and> (ending req = End \<longrightarrow>
        ((\<exists>st' res'. handleRequest rt rc req res st = Inr (st', res') \<and> statusCode res' = 400)
          \<longleftrightarrow> (toUpperCase (req_method req) = ''POST'' \<and> req_url req = ''/''
               \<and> JSON_parse rt (concat (chunks req)) = None)))
   \<and> (\<forall>st' res'. handleRequest rt rc req res st = Inr (st', res') \<and> statusCode res' \<in> {400, 404}
         \<longrightarrow> st' = st \<and> res' = sendError (statusCode res') None res)"
proof -
  have a: "(\<exists>st' res'. handleRequest rt rc req res st = Inr (st', res') \<and> statusCode res' = 404)
      \<longleftrightarrow> (toUpperCase (req_method req) \<noteq> ''POST'' \<or> req_url req \<noteq> ''/'')"
    by (auto simp: handleRequest_def sendError_def res_end_def STATUS_CODES_def
             split: prod.splits option.splits sum.splits if_splits)
  have b: "(\<exists>st' res'. handleRequest rt rc req res st = Inr (st', res') \<and> statusCode res' = 400)
          \<longleftrightarrow> (toUpperCase (req_method req) = ''POST'' \<and> req_url req = ''/''
               \<and> JSON_parse rt (concat (chunks req)) = None)"
    if "ending req = End"
    by (auto simp: handleRequest_def bufferRequest_End [OF that] JSON_parse_arg_def sendError_def
                   res_end_def STATUS_CODES_def
             split: option.splits sum.splits if_splits)
  have c: "\<forall>st' res'. handleRequest rt rc req res st = Inr (st', res') \<and> statusCode res' \<in> {400, 404}
         \<longrightarrow> st' = st \<and> res' = sendError (statusCode res') None res"
    by (auto simp: handleRequest_def sendError_def res_end_def STATUS_CODES_def
             split: prod.splits option.splits sum.splits if_splits)
  from a b c show ?thesis by blast
qed

theorem handleRequest_404_400_witness:
  "(\<exists>st' res'. handleRequest sample_runtime no_expiry ((post ''{}'')\<lparr>req_method := ''GET''\<rparr>)
        fresh_response initial = Inr (st', res') \<and> statusCode res' = 404)
   \<and> (\<exists>st' res'. handleRequest sample_runtime no_expiry (post ''not json{'')
        fresh_response initial = Inr (st', res') \<and> statusCode res' = 400)
   \<and> \<not> (\<exists>st' res'. handleRequest sample_runtime no_expiry (post ''{}'')
        fresh_response initial = Inr (st', res') \<and> statusCode res' = 400)"
  using handleRequest_404_400 [of sample_runtime no_expiry
      "(post ''{}'')\<lparr>req_method := ''GET''\<rparr>" fresh_response initial]
    handleRequest_404_400 [of sample_runtime no_expiry "post ''not json{''" fresh_response initial]
    handleRequest_404_400 [of sample_runtime no_expiry "post ''{}''" fresh_response initial]
  by (simp add: sample_runtime_def sample_texts_def post_def toUpperCase_def)

section \<open>Bodies that decode to null\<close>

text \<open>
  Claim C3, at the inputs the claim names: a POST to \<^verbatim>\<open>/\<close> whose body is the JSON text
  \<^verbatim>\<open>null\<close>, or an object whose \<^verbatim>\<open>services\<close> is \<^verbatim>\<open>null\<close>, is not answered with 200 and
  the snapshot: the handler throws a TypeError that nothing catches. In the first case
  \<^verbatim>\<open>data.services\<close> reads a property of \<^verbatim>\<open>null\<close>; in the second \<^verbatim>\<open>typeof null\<close> is
  \<^verbatim>\<open>'object'\<close>, so the merge runs and \<^verbatim>\<open>Object.keys(null)\<close> throws.
\<close>

theorem handleRequest_null_throws:
  \<open>handleRequest sample_runtime no_expiry (post ''null'') fresh_response initial = Inl TypeError
   \<and> handleRequest sample_runtime no_expiry (post ''{"services":null}'') fresh_response initial
       = Inl TypeError\<close>
  by (simp add: fixture_defs handler_defs)

theorem handleRequest_null_throws_witness:
  "apply_event sample_runtime no_expiry (Request (post ''null'')) initial = Inl TypeError"
  using handleRequest_null_throws by simp

text \<open>
  The part of the claim that holds: a body that decodes to a value other than \<^verbatim>\<open>null\<close>
  whose \<^verbatim>\<open>services\<close> is absent, or is neither an object, an array nor \<^verbatim>\<open>null\<close>, is
  a query: the answer is 200 with the snapshot, and the state is unchanged.
\<close>

lemma handleRequest_query:
  assumes "req_url req = ''/''" and "toUpperCase (req_method req) = ''POST''"
    and "JSON_parse_arg rt (snd (bufferRequest req)) = Some d"
    and "d \<noteq> JNull" and "typeof (map_of (props d) ''services'') \<noteq> ''object''"
  shows "handleRequest rt rc req res st
     = Inr (st, res_end (Some (JSON_stringify rt (JObj (services st)))) (res\<lparr>statusCode := 200\<rparr>))"
  using assms(4,5) by (simp add: handleRequest_decoded [OF assms(1-3)] get_member_props)

section \<open>Transport errors while buffering\<close>




section \<open>Bind failures\<close>

lemma on_error_retry_iff:
  "(\<exists>delay call. on_error rc err = Retry delay call)
     \<longleftrightarrow> (err_code err = ''EADDRINUSE'' \<or> retryBind rc \<noteq> 0)"
  by (simp add: on_error_def)

text \<open>
  Claim C9, where the code departs from it: \<^verbatim>\<open>retryBind\<close> is falsy and \<^verbatim>\<open>listen\<close> fails
  with the code \<^verbatim>\<open>EADDRINUSE\<close>. The failure is not fatal and nothing is printed: the
  handler sets a timeout of 0 milliseconds that calls \<^verbatim>\<open>listen\<close> again, and does so after
  every such failure. The calls it makes give the port only, where the first call gave
  the host name too.
\<close>

theorem bind_addr_in_use_retried:
  "on_error no_expiry \<lparr>err_code = ''EADDRINUSE'', err_message = ''listen EADDRINUSE''\<rparr>
     = Retry 0 \<lparr>listen_port = 8080, listen_host = None\<rparr>
   \<and> start_listening no_expiry
        [Some \<lparr>err_code = ''EADDRINUSE'', err_message = ''listen EADDRINUSE''\<rparr>,
         Some \<lparr>err_code = ''EADDRINUSE'', err_message = ''listen EADDRINUSE''\<rparr>,
         Some \<lparr>err_code = ''EADDRINUSE'', err_message = ''listen EADDRINUSE''\<rparr>]
     = Waiting [\<lparr>listen_port = 8080, listen_host = Some ''0.0.0.0''\<rparr>,
                \<lparr>listen_port = 8080, listen_host = None\<rparr>,
                \<lparr>listen_port = 8080, listen_host = None\<rparr>,
                \<lparr>listen_port = 8080, listen_host = None\<rparr>]"
  by (simp add: on_error_def start_listening_def first_listen_def no_expiry_def)

theorem bind_addr_in_use_retried_witness:
  "on_error no_expiry \<lparr>err_code = ''EADDRINUSE'', err_message = ''listen EADDRINUSE''\<rparr>
     \<noteq> Report ''Error: listen EADDRINUSE''"
  using bind_addr_in_use_retried by simp

section \<open>What a merge writes\<close>

lemma updateServices_object:
  "get_member data ''services'' = Inr (Some (JObj reports)) \<Longrightarrow>
   updateServices rc data rinfo st = forEach (update_service rc (JObj reports) rinfo) (map fst reports) st"
  by (simp add: updateServices_def)


text \<open>
  Claim C1 as stated fails: the merge of the report \<^verbatim>\<open>{"a": {}}\<close> leaves an entry whose only
  property is \<^verbatim>\<open>rinfo\<close>. Nothing sets \<^verbatim>\<open>available\<close> to true, and the reporter's address
  is stored under \<^verbatim>\<open>rinfo\<close>, not under \<^verbatim>\<open>reporterAddress\<close>.
\<close>

theorem merge_no_available_counterexample:
  "updateServices no_expiry (JObj [(''services'', JObj [(''a'', JObj [])])]) address_A initial
     = Inr (initial\<lparr>services := [(''a'', JObj [(''rinfo'', address_A)])]\<rparr>)
   \<and> get_member (JObj [(''rinfo'', address_A)]) ''available'' = Inr None
   \<and> get_member (JObj [(''rinfo'', address_A)]) ''reporterAddress'' = Inr None"
  by (simp add: fixture_defs handler_defs)

text \<open>
  Claim C1, amended: a merge of a reports object whose descriptors are JSON objects and whose
  names do not include \<^verbatim>\<open>__proto__\<close> succeeds, and for every name in the reports the
  store's entry for that name is overwritten (or inserted) with the reported descriptor
  stamped with \<^verbatim>\<open>rinfo\<close>, set to the reporter's address. The merge does not set
  \<^verbatim>\<open>available\<close>: the entry has it as the client sent it (absent when the client sent
  none). The entries of the names that are not in the reports stay as they were.
\<close>

theorem merge_stamps_rinfo:
  assumes "get_member data ''services'' = Inr (Some (JObj reports))"
    and "''__proto__'' \<notin> fst ` set reports"
    and "\<forall>v \<in> snd ` set reports. \<exists>kvs. v = JObj kvs"
  shows "\<exists>st'. updateServices rc data rinfo st = Inr st' \<and>
     (\<forall>name \<in> fst ` set reports. \<exists>kvs.
         map_of reports name = Some (JObj kvs)
         \<and> map_of (services st') name = Some (JObj (AList.update ''rinfo'' rinfo kvs))
         \<and> get_member (JObj (AList.update ''rinfo'' rinfo kvs)) ''rinfo'' = Inr (Some rinfo)
         \<and> get_member (JObj (AList.update ''rinfo'' rinfo kvs)) ''available''
             = get_member (JObj kvs) ''available'') \<and>
     (\<forall>name. name \<notin> fst ` set reports \<longrightarrow>
         map_of (services st') name = map_of (services st) name)"
proof -
  have obj: "\<exists>kvs. map_of reports name = Some (JObj kvs)" if "name \<in> fst ` set reports" for name
  proof -
    from that obtain v where v: "map_of reports name = Some v"
      by (metis map_of_eq_None_iff not_Some_eq)
    then have "v \<in> snd ` set reports" by (metis map_of_SomeD snd_conv image_eqI)
    with assms(3) obtain kvs where "v = JObj kvs" by auto
    with v show ?thesis by simp
  qed
  have nn: "\<forall>name \<in> set (map fst reports).
      name \<noteq> ''__proto__'' \<and> (\<exists>v. map_of (props (JObj reports)) name = Some v \<and> v \<noteq> JNull)"
  proof
    fix name assume "name \<in> set (map fst reports)"
    then have n: "name \<in> fst ` set reports" by simp
    from obj [OF n] obtain kvs where "map_of reports name = Some (JObj kvs)" ..
    moreover from n assms(2) have "name \<noteq> ''__proto__''" by metis
    ultimately show "name \<noteq> ''__proto__''
        \<and> (\<exists>v. map_of (props (JObj reports)) name = Some v \<and> v \<noteq> JNull)" by simp
  qed
  from forEach_update_service_entries [OF _ nn, of rc rinfo st] obtain st' where
    run: "forEach (update_service rc (JObj reports) rinfo) (map fst reports) st = Inr st'"
    and ents: "\<forall>name \<in> set (map fst reports). \<exists>v'.
        set_member (map_of (props (JObj reports)) name) ''rinfo'' rinfo = Inr v'
        \<and> map_of (services st') name = Some v'"
    by auto
  have upd: "updateServices rc data rinfo st = Inr st'"
    using run assms(1) by (simp add: updateServices_object)
  have a: "\<forall>name \<in> fst ` set reports. \<exists>kvs.
         map_of reports name = Some (JObj kvs)
         \<and> map_of (services st') name = Some (JObj (AList.update ''rinfo'' rinfo kvs))
         \<and> get_member (JObj (AList.update ''rinfo'' rinfo kvs)) ''rinfo'' = Inr (Some rinfo)
         \<and> get_member (JObj (AList.update ''rinfo'' rinfo kvs)) ''available''
             = get_member (JObj kvs) ''available''"
  proof
    fix name assume n: "name \<in> fst ` set reports"
    from obj [OF n] obtain kvs where k: "map_of reports name = Some (JObj kvs)" ..
    from ents n obtain v' where
      "set_member (map_of reports name) ''rinfo'' rinfo = Inr v'" "map_of (services st') name = Some v'"
      by auto
    with k have "map_of (services st') name = Some (JObj (AList.update ''rinfo'' rinfo kvs))"
      by simp
    with k show "\<exists>kvs. map_of reports name = Some (JObj kvs)
         \<and> map_of (services st') name = Some (JObj (AList.update ''rinfo'' rinfo kvs))
         \<and> get_member (JObj (AList.update ''rinfo'' rinfo kvs)) ''rinfo'' = Inr (Some rinfo)
         \<and> get_member (JObj (AList.update ''rinfo'' rinfo kvs)) ''available''
             = get_member (JObj kvs) ''available''"
      by (simp add: update_conv')
  qed
  have c: "\<forall>name. name \<notin> fst ` set reports \<longrightarrow>
         map_of (services st') name = map_of (services st) name"
    using forEach_update_service_frame [OF run] by simp
  from upd a c show ?thesis by blast
qed

theorem merge_stamps_rinfo_witness:
  "\<exists>st'. updateServices expiry_10
      (JObj [(''services'', JObj [(''a'', JObj [(''available'', JBool False)])])]) address_A initial = Inr st'
    \<and> map_of (services st') ''a'' = Some (JObj [(''available'', JBool False), (''rinfo'', address_A)])"
  using merge_stamps_rinfo [of "JObj [(''services'', JObj [(''a'', JObj [(''available'', JBool False)])])]"
      "[(''a'', JObj [(''available'', JBool False)])]" expiry_10 address_A initial]
  by fastforce

section \<open>The response to a decoded request\<close>




section \<open>An array of services\<close>




section \<open>Timers\<close>





lemma forEach_preserves:
  assumes "\<And>x s s'. x \<in> set xs \<Longrightarrow> P s \<Longrightarrow> f x s = Inr s' \<Longrightarrow> P s'"
    and "P s" and "forEach f xs s = Inr s'"
  shows "P s'"
  using assms
proof (induction xs arbitrary: s)
  case Nil
  then show ?case by simp
next
  case (Cons x xs)
  from Cons.prems(3) obtain s1 where one: "f x s = Inr s1" and rest: "forEach f xs s1 = Inr s'"
    by (cases "f x s") simp_all
  have "P s1" using Cons.prems(1) [of x s s1] Cons.prems(2) one by simp
  moreover have "\<And>y s s'. y \<in> set xs \<Longrightarrow> P s \<Longrightarrow> f y s = Inr s' \<Longrightarrow> P s'"
    using Cons.prems(1) by (meson list.set_intros(2))
  ultimately show ?case using rest by (intro Cons.IH [of s1])
qed

lemma handleRequest_state:
  assumes "handleRequest rt rc req res st = Inr (st', res')"
  shows "(reported_names rt req = [] \<and> st' = st) \<or>
     (\<exists>svcs. forEach (update_service rc svcs (client_address req)) (reported_names rt req) st = Inr st')"
proof (cases "req_url req \<noteq> ''/'' \<or> toUpperCase (req_method req) \<noteq> ''POST''")
  case True
  with assms show ?thesis by (simp add: handleRequest_def reported_names_def split: prod.splits)
next
  case route: False
  show ?thesis
  proof (cases "JSON_parse_arg rt (snd (bufferRequest req))")
    case None
    with assms route show ?thesis
      by (simp add: handleRequest_def reported_names_def split: prod.splits)
  next
    case (Some d)
    have h: "handleRequest rt rc req res st =
     (case get_member d ''services'' of
        Inl e \<Rightarrow> Inl e
      | Inr sv \<Rightarrow>
          (case (if typeof sv = ''object''
                 then updateServices rc d (client_address req) st
                 else Inr st) of
             Inl e \<Rightarrow> Inl e
           | Inr st' \<Rightarrow>
               Inr (st', res_end (Some (JSON_stringify rt (JObj (services st'))))
                           (res\<lparr>statusCode := 200\<rparr>))))"
      using route Some by (intro handleRequest_decoded) simp_all
    from assms obtain sv where sv: "get_member d ''services'' = Inr sv"
      unfolding h by (cases "get_member d ''services''") simp_all
    show ?thesis
    proof (cases "typeof sv = ''object''")
      case False
      with assms sv have "st' = st" unfolding h by simp
      moreover have "reported_names rt req = []"
        using route Some sv False by (simp add: reported_names_def)
      ultimately show ?thesis by simp
    next
      case True
      with assms sv have u: "updateServices rc d (client_address req) st = Inr st'"
        unfolding h by (cases "updateServices rc d (client_address req) st") simp_all
      then obtain svcs names where s: "sv = Some svcs" and k: "Object_keys svcs = Inr names"
        and f: "forEach (update_service rc svcs (client_address req)) names st = Inr st'"
        using sv by (auto simp: updateServices_def split: option.splits sum.splits)
      have "reported_names rt req = names"
        using route Some sv True s k by (simp add: reported_names_def)
      with f show ?thesis by blast
    qed
  qed
qed


lemma handleRequest_clock:
  assumes "handleRequest rt rc req res st = Inr (st', res')"
  shows "clock st' = clock st"
proof -
  have one: "clock s' = clock s" if "update_service rc svcs rinfo n s = Inr s'" for svcs rinfo n s s'
    using that by (rule update_service_fields)
  from handleRequest_state [OF assms] consider "st' = st"
    | svcs where "forEach (update_service rc svcs (client_address req)) (reported_names rt req) st = Inr st'"
    by blast
  then show ?thesis
  proof cases
    case 1
    then show ?thesis by simp
  next
    case 2
    show ?thesis
      by (rule forEach_preserves [where P = "\<lambda>s. clock s = clock st", OF _ _ 2])
         (simp_all add: one)
  qed
qed

lemma timeout_callback_fields:
  assumes "timeout_callback name st = Inr st'"
  obtains e' where "set_member (map_of (services st) name) ''available'' (JBool False) = Inr e'"
    and "e' \<noteq> JNull"
    and "services st' = AList.update name e' (services st)"
    and "timeoutTimerIds st' = AList.update name None (timeoutTimerIds st)"
    and "timers st' = timers st" and "clock st' = clock st" and "next_timer st' = next_timer st"
proof -
  obtain e' where e: "set_member (map_of (services st) name) ''available'' (JBool False) = Inr e'"
    using assms
    by (cases "set_member (map_of (services st) name) ''available'' (JBool False)")
       (simp_all add: timeout_callback_def)
  have n: "e' \<noteq> JNull" using e set_member_Inr_not_null by blast
  show thesis
    using assms by (intro that [OF e n]) (auto simp: timeout_callback_def e)
qed

lemma fire_cases:
  assumes "fire h st = Inr st'"
  obtains "st' = st"
  | t where "t \<in> set (timers st)" and "tid t = h" and "due t \<le> clock st"
      and "timeout_callback (tname t) (st\<lparr>timers := filter (\<lambda>t. tid t \<noteq> h) (timers st)\<rparr>) = Inr st'"
proof (cases "find (\<lambda>t. tid t = h) (timers st)")
  case None
  with assms have "st' = st" by (simp add: fire_def)
  then show thesis by (rule that(1))
next
  case (Some t)
  then have m: "t \<in> set (timers st)" "tid t = h"
    by (auto simp: find_Some_iff)
  show thesis
  proof (cases "due t \<le> clock st")
    case True
    with assms Some show thesis by (intro that(2) [OF m]) (simp_all add: fire_def)
  next
    case False
    with assms Some have "st' = st" by (simp add: fire_def)
    then show thesis by (rule that(1))
  qed
qed

lemma fire_fields:
  assumes "fire h st = Inr st'" and "st' \<noteq> st"
  obtains t e' where "t \<in> set (timers st)" and "tid t = h" and "due t \<le> clock st"
    and "set_member (map_of (services st) (tname t)) ''available'' (JBool False) = Inr e'"
    and "e' \<noteq> JNull"
    and "services st' = AList.update (tname t) e' (services st)"
    and "timeoutTimerIds st' = AList.update (tname t) None (timeoutTimerIds st)"
    and "timers st' = filter (\<lambda>t. tid t \<noteq> h) (timers st)"
    and "clock st' = clock st" and "next_timer st' = next_timer st"
proof -
  from assms obtain t where t: "t \<in> set (timers st)" "tid t = h" "due t \<le> clock st"
    and cb: "timeout_callback (tname t) (st\<lparr>timers := filter (\<lambda>t. tid t \<noteq> h) (timers st)\<rparr>) = Inr st'"
    by (auto elim: fire_cases)
  from cb show thesis
    by (rule timeout_callback_fields) (rule that [OF t], simp_all)
qed








section \<open>The phases of a reported name\<close>








lemma run_clock:
  assumes "run rt rc evs st = Inr st'"
  shows "clock st \<le> clock st'"
proof -
  from assms have f: "forEach (apply_event rt rc) evs st = Inr st'" by (simp add: run_def)
  have step: "clock s \<le> clock s'" if "apply_event rt rc ev s = Inr s'" for ev s s'
  proof (cases ev)
    case (Request req)
    with that obtain res' where "handleRequest rt rc req fresh_response s = Inr (s', res')"
      by (cases "handleRequest rt rc req fresh_response s") auto
    then show ?thesis by (simp add: handleRequest_clock)
  next
    case (Elapse k)
    with that show ?thesis by auto
  next
    case (Fire h)
    with that have f: "fire h s = Inr s'" by simp
    show ?thesis
    proof (cases "s' = s")
      case True
      then show ?thesis by simp
    next
      case False
      with f have "clock s' = clock s" by (rule fire_fields)
      then show ?thesis by simp
    qed
  qed
  show ?thesis
    by (rule forEach_preserves [where P = "\<lambda>s. clock st \<le> clock s", OF _ _ f])
       (use step in \<open>auto intro: order_trans\<close>)
qed







section \<open>Expiry\<close>




section \<open>Re-reporting a name\<close>




end
